theory Spec2Isabelle
  imports Complex_Main "HOL-Library.Word"
begin

section \<open>The mission bridge: \<^verbatim>\<open>ros_bridge.py\<close> and \<^verbatim>\<open>test_mission_server.py\<close>\<close>

text \<open>
  A shallow embedding of \<^verbatim>\<open>ROSBridge.run\<close> and \<^verbatim>\<open>ROSBridge.send_mission\<close>
  (\<^verbatim>\<open>ros_bridge.py\<close>) and of the read loop of \<^verbatim>\<open>start_server\<close>
  (\<^verbatim>\<open>test_mission_server.py\<close>).

  The program is sequential and talks to three outside parties: the TCP peer, the Python
  standard library (\<^verbatim>\<open>bytes.decode\<close>, \<^verbatim>\<open>json.loads\<close>) and the rclpy action client.
  What each of them answers is an input of the model; what the program does to them (socket
  calls, action client calls, log lines) is recorded, in program order, as a list of effects.
  A computation yields an outcome (it returns, it raises, or it blocks for ever) together
  with the effects performed up to that point.
\<close>

subsection \<open>Python values\<close>

text \<open>
  The values \<^verbatim>\<open>json.loads\<close> produces. A Python \<^verbatim>\<open>dict\<close> is an association list in
  insertion order with one entry per key, read with \<^const>\<open>map_of\<close> (were a key listed twice,
  its first entry would count and the others be ignored). A Python \<^verbatim>\<open>float\<close> is only stored, compared
  with zero and printed by this program, never computed with: it is a rational or one of the
  three special values \<^verbatim>\<open>json.loads\<close> accepts.
\<close>

datatype pyfloat = Finite rat | PosInf | NegInf | NaN

datatype json =
    JNull
  | JBool bool
  | JInt int
  | JFloat pyfloat
  | JString string
  | JArray "json list"
  | JObject "(string \<times> json) list"

datatype exn =
    AttributeError
  | TypeError
  | UnicodeDecodeError
  | JSONDecodeError
  | ConnectionResetError
  | ActionClientError
  | KeyboardInterrupt

text \<open>\<^verbatim>\<open>except Exception\<close> catches every exception class above but \<^verbatim>\<open>KeyboardInterrupt\<close>,
  which derives from \<^verbatim>\<open>BaseException\<close> only.\<close>

fun is_Exception :: "exn \<Rightarrow> bool" where
  "is_Exception KeyboardInterrupt = False"
| "is_Exception _ = True"

text \<open>Truth value testing (\<^verbatim>\<open>not waypoints\<close>).\<close>

fun truthy :: "json \<Rightarrow> bool" where
  "truthy JNull = False"
| "truthy (JBool b) = b"
| "truthy (JInt n) = (n \<noteq> 0)"
| "truthy (JFloat x) = (x \<noteq> Finite 0)"
| "truthy (JString s) = (s \<noteq> [])"
| "truthy (JArray xs) = (xs \<noteq> [])"
| "truthy (JObject kvs) = (kvs \<noteq> [])"

text \<open>\<^verbatim>\<open>len(v)\<close>: defined on strings, lists and dicts, a \<^verbatim>\<open>TypeError\<close> elsewhere.\<close>

fun py_len :: "json \<Rightarrow> exn + nat" where
  "py_len (JString s) = Inr (length s)"
| "py_len (JArray xs) = Inr (length xs)"
| "py_len (JObject kvs) = Inr (length (remdups (map fst kvs)))"
| "py_len _ = Inl TypeError"

text \<open>\<^verbatim>\<open>for wp in v\<close>: a list yields its elements, a string its characters, a dict its keys;
  anything else is not iterable.\<close>

fun py_iter :: "json \<Rightarrow> exn + json list" where
  "py_iter (JArray xs) = Inr xs"
| "py_iter (JString s) = Inr (map (\<lambda>c. JString [c]) s)"
| "py_iter (JObject kvs) = Inr (map JString (remdups (map fst kvs)))"
| "py_iter _ = Inl TypeError"

text \<open>\<^verbatim>\<open>v.get(key, default)\<close>: only a dict has the method.\<close>

fun py_get :: "json \<Rightarrow> string \<Rightarrow> json \<Rightarrow> exn + json" where
  "py_get (JObject kvs) key dflt = Inr (case map_of kvs key of None \<Rightarrow> dflt | Some v \<Rightarrow> v)"
| "py_get _ key dflt = Inl AttributeError"

subsection \<open>The goal message\<close>

text \<open>
  \<^verbatim>\<open>Mission.Goal\<close> and \<^verbatim>\<open>Mission.Goal.NavWaypoints\<close> come from the generated package
  \<^verbatim>\<open>nav_autonomy_interface\<close>, which is not among the sources. Their fields are taken to
  hold whatever \<^verbatim>\<open>send_mission\<close> assigns.
\<close>

record waypoint =
  latitude :: json
  longitude :: json

record goal =
  search_object :: json
  search_pattern :: json
  nav_waypoints :: "waypoint list"

subsection \<open>Effects and outcomes\<close>

datatype client_goal_handle = ClientGoalHandle (accepted: bool)

datatype level = Info | Warn | Error

datatype message =
    ConnectionFrom string
  | ReceivedMission json
  | NoWaypoints
  | SendingGoal
  | MissionGoalSent client_goal_handle
  | FailedToParse exn

datatype effect =
    Accept string
  | Recv "8 word list"
  | Close
  | Log level message
  | WaitForServer
  | SendGoalAsync goal
  | SpinUntilFutureComplete

datatype 'a outcome = Returns 'a | Raises exn | Blocks

type_synonym 'a comp = "'a outcome \<times> effect list"

definition seq :: "'a comp \<Rightarrow> ('a \<Rightarrow> 'b comp) \<Rightarrow> 'b comp" where
  "seq m f =
     (case m of
        (Returns a, es) \<Rightarrow> (case f a of (r, es') \<Rightarrow> (r, es @ es'))
      | (Raises e, es) \<Rightarrow> (Raises e, es)
      | (Blocks, es) \<Rightarrow> (Blocks, es))"

definition emit :: "effect \<Rightarrow> unit comp" where
  "emit e = (Returns (), [e])"

definition raise_or :: "exn + 'a \<Rightarrow> 'a comp" where
  "raise_or r = (case r of Inl e \<Rightarrow> (Raises e, []) | Inr a \<Rightarrow> (Returns a, []))"

text \<open>A call into the environment: the call is made, and the environment decides how it ends.\<close>

definition call :: "effect \<Rightarrow> 'a outcome \<Rightarrow> 'a comp" where
  "call e r = (r, [e])"

subsection \<open>The action client\<close>

text \<open>
  What the rclpy action client does during one dispatch. \<^verbatim>\<open>send_goal_async\<close> returns the
  send-goal future, which completes when the action server has accepted or rejected the goal;
  its result is the client goal handle. Whether and how the goal itself finishes
  (\<open>goal_result\<close>) can be observed only through the handle's \<^verbatim>\<open>get_result_async\<close>.
\<close>

record action_env =
  wait_for_server :: "unit outcome"
  send_goal_async :: "unit outcome"
  spin_until_future_complete :: "unit outcome"
  future_result :: "exn + client_goal_handle"
  goal_result :: "int outcome"

subsection \<open>\<^verbatim>\<open>ROSBridge.send_mission\<close>\<close>

text \<open>Line 43: \<^verbatim>\<open>not waypoints or len(waypoints) == 0\<close>.\<close>

definition no_waypoints :: "json \<Rightarrow> exn + bool" where
  "no_waypoints waypoints =
     (if \<not> truthy waypoints then Inr True
      else case py_len waypoints of Inl e \<Rightarrow> Inl e | Inr n \<Rightarrow> Inr (n = 0))"

text \<open>Lines 51 to 53: one \<^verbatim>\<open>NavWaypoints\<close> from one element of the payload's list.\<close>

definition build_waypoint :: "json \<Rightarrow> exn + waypoint" where
  "build_waypoint wp =
     (case py_get wp ''latitude'' (JFloat (Finite 0)) of
        Inl e \<Rightarrow> Inl e
      | Inr lat \<Rightarrow>
          (case py_get wp ''longitude'' (JFloat (Finite 0)) of
             Inl e \<Rightarrow> Inl e
           | Inr lon \<Rightarrow> Inr \<lparr>latitude = lat, longitude = lon\<rparr>))"

text \<open>Lines 50 to 54: the loop appends to the list built so far and stops at the first
  exception.\<close>

fun build_waypoints :: "json list \<Rightarrow> waypoint list \<Rightarrow> exn + waypoint list" where
  "build_waypoints [] acc = Inr acc"
| "build_waypoints (wp # wps) acc =
     (case build_waypoint wp of
        Inl e \<Rightarrow> Inl e
      | Inr w \<Rightarrow> build_waypoints wps (acc @ [w]))"

text \<open>Lines 46 to 54.\<close>

definition build_goal :: "json \<Rightarrow> json \<Rightarrow> exn + goal" where
  "build_goal mission waypoints =
     (case py_get mission ''search_object'' (JInt 0) of
        Inl e \<Rightarrow> Inl e
      | Inr so \<Rightarrow>
          (case py_get mission ''search_pattern'' (JInt 0) of
             Inl e \<Rightarrow> Inl e
           | Inr sp \<Rightarrow>
               (case py_iter waypoints of
                  Inl e \<Rightarrow> Inl e
                | Inr wps \<Rightarrow>
                    (case build_waypoints wps [] of
                       Inl e \<Rightarrow> Inl e
                     | Inr ws \<Rightarrow>
                         Inr \<lparr>search_object = so, search_pattern = sp, nav_waypoints = ws\<rparr>))))"

text \<open>Lines 55 to 60.\<close>

definition dispatch :: "action_env \<Rightarrow> goal \<Rightarrow> unit comp" where
  "dispatch env goal_msg =
     seq (emit (Log Info SendingGoal)) (\<lambda>_.
     seq (call WaitForServer (wait_for_server env)) (\<lambda>_.
     seq (call (SendGoalAsync goal_msg) (send_goal_async env)) (\<lambda>_.
     seq (call SpinUntilFutureComplete (spin_until_future_complete env)) (\<lambda>_.
     seq (raise_or (future_result env)) (\<lambda>result.
     emit (Log Info (MissionGoalSent result)))))))"

definition send_mission :: "action_env \<Rightarrow> json \<Rightarrow> unit comp" where
  "send_mission env mission =
     seq (raise_or (py_get mission ''nav_waypoints'' (JArray []))) (\<lambda>waypoints.
     seq (raise_or (no_waypoints waypoints)) (\<lambda>none.
       if none then emit (Log Warn NoWaypoints)
       else seq (raise_or (build_goal mission waypoints)) (dispatch env)))"

text \<open>The goals handed to \<^verbatim>\<open>send_goal_async\<close>, in order: the dispatch calls of a run.\<close>

fun goals_sent :: "effect list \<Rightarrow> goal list" where
  "goals_sent [] = []"
| "goals_sent (SendGoalAsync g # es) = g # goals_sent es"
| "goals_sent (_ # es) = goals_sent es"

fun is_object :: "json \<Rightarrow> bool" where
  "is_object (JObject kvs) = True"
| "is_object _ = False"

subsection \<open>\<^verbatim>\<open>ROSBridge.run\<close>\<close>

text \<open>
  What the peer of one connection does: the results of the successive \<^verbatim>\<open>conn.recv(4096)\<close>
  calls. A call returns a chunk, raises (a reset connection), or never returns (a silent
  peer). Once the script is used up the peer has closed its side and \<^verbatim>\<open>recv\<close> returns
  \<^verbatim>\<open>b''\<close>, as it does for an empty chunk.
\<close>

datatype recv_result = Chunk "8 word list" | RecvRaises exn | RecvBlocks

record connection =
  peer :: string
  recvs :: "recv_result list"
  action :: action_env

text \<open>\<^verbatim>\<open>bytes.decode('utf-8')\<close> and \<^verbatim>\<open>json.loads\<close> belong to the Python library; the
  model takes them as parameters. \<open>None\<close> stands for \<^verbatim>\<open>UnicodeDecodeError\<close> and for
  \<^verbatim>\<open>JSONDecodeError\<close>.\<close>

record codec =
  utf8_decode :: "8 word list \<Rightarrow> string option"
  json_loads :: "string \<Rightarrow> json option"

text \<open>Lines 27 to 32: the effects list the chunks read; the result is \<^verbatim>\<open>data\<close>.\<close>

fun recv_loop :: "recv_result list \<Rightarrow> 8 word list \<Rightarrow> (8 word list) comp" where
  "recv_loop [] data = (Returns data, [Recv []])"
| "recv_loop (Chunk chunk # rs) data =
     (if chunk = [] then (Returns data, [Recv []])
      else seq (emit (Recv chunk)) (\<lambda>_. recv_loop rs (data @ chunk)))"
| "recv_loop (RecvRaises e # rs) data = (Raises e, [])"
| "recv_loop (RecvBlocks # rs) data = (Blocks, [])"

text \<open>Line 34: \<^verbatim>\<open>json.loads(data.decode('utf-8'))\<close>.\<close>

definition decode_text :: "(8 word list \<Rightarrow> string option) \<Rightarrow> 8 word list \<Rightarrow> exn + string" where
  "decode_text dec data =
     (case dec data of None \<Rightarrow> Inl UnicodeDecodeError | Some text \<Rightarrow> Inr text)"

definition decode :: "codec \<Rightarrow> 8 word list \<Rightarrow> exn + json" where
  "decode cd data =
     (case decode_text (utf8_decode cd) data of
        Inl e \<Rightarrow> Inl e
      | Inr text \<Rightarrow>
          (case json_loads cd text of
             None \<Rightarrow> Inl JSONDecodeError
           | Some mission \<Rightarrow> Inr mission))"

text \<open>Lines 33 to 38: \<^verbatim>\<open>try: ... except Exception as e:\<close> logs and goes on.\<close>

definition except_Exception :: "unit comp \<Rightarrow> unit comp" where
  "except_Exception body =
     (case body of
        (Raises e, es) \<Rightarrow>
          if is_Exception e then (Returns (), es @ [Log Error (FailedToParse e)])
          else (Raises e, es)
      | (r, es) \<Rightarrow> (r, es))"

text \<open>Line 25: \<^verbatim>\<open>with conn:\<close> closes the socket when the block is left, by its end or by an
  exception.\<close>

definition with_conn :: "'a comp \<Rightarrow> 'a comp" where
  "with_conn body =
     (case body of
        (Blocks, es) \<Rightarrow> (Blocks, es)
      | (r, es) \<Rightarrow> (r, es @ [Close]))"

text \<open>Lines 24 to 38: one turn of the loop, from the moment \<^verbatim>\<open>accept\<close> returns the
  connection.\<close>

definition handle_connection :: "codec \<Rightarrow> connection \<Rightarrow> unit comp" where
  "handle_connection cd c =
     seq (emit (Accept (peer c))) (\<lambda>_.
     with_conn (
       seq (emit (Log Info (ConnectionFrom (peer c)))) (\<lambda>_.
       seq (recv_loop (recvs c) []) (\<lambda>data.
       except_Exception (
         seq (raise_or (decode cd data)) (\<lambda>mission.
         seq (emit (Log Info (ReceivedMission mission))) (\<lambda>_.
         send_mission (action c) mission)))))))"

text \<open>
  Lines 22 to 38. Each turn of \<^verbatim>\<open>while rclpy.ok()\<close> either finds \<^verbatim>\<open>rclpy.ok()\<close> false
  (\<open>Shutdown\<close>) or accepts a connection. When the list is used up, \<^verbatim>\<open>accept\<close> waits for a
  peer that does not come (\<open>Accepting\<close>). An exception that leaves the loop body ends
  \<^verbatim>\<open>run\<close> (\<open>Crashed\<close>); a call that never returns stalls it (\<open>Stalled\<close>). The number
  counts the connections accepted so far and tags the effects of each.
\<close>

datatype iteration = Shutdown | Connection connection

datatype run_status = Exited | Crashed exn | Stalled | Accepting

fun run :: "codec \<Rightarrow> nat \<Rightarrow> iteration list \<Rightarrow> run_status \<times> (nat \<times> effect) list" where
  "run cd n [] = (Accepting, [])"
| "run cd n (Shutdown # its) = (Exited, [])"
| "run cd n (Connection c # its) =
     (case handle_connection cd c of
        (Returns _, es) \<Rightarrow>
          (case run cd (Suc n) its of (st, tr) \<Rightarrow> (st, map (Pair n) es @ tr))
      | (Raises e, es) \<Rightarrow> (Crashed e, map (Pair n) es)
      | (Blocks, es) \<Rightarrow> (Stalled, map (Pair n) es))"

text \<open>The text \<^verbatim>\<open>run\<close> passes to \<^verbatim>\<open>json.loads\<close> (lines 27 to 34).\<close>

definition bridge_text :: "(8 word list \<Rightarrow> string option) \<Rightarrow> recv_result list \<Rightarrow> string comp" where
  "bridge_text dec rs = seq (recv_loop rs []) (\<lambda>data. raise_or (decode_text dec data))"

text \<open>The value \<^verbatim>\<open>json.loads\<close> returns to \<^verbatim>\<open>run\<close> (lines 27 to 34).\<close>

definition bridge_payload :: "codec \<Rightarrow> recv_result list \<Rightarrow> json comp" where
  "bridge_payload cd rs = seq (recv_loop rs []) (\<lambda>data. raise_or (decode cd data))"

subsection \<open>The read loop of \<^verbatim>\<open>start_server\<close> (\<^verbatim>\<open>test_mission_server.py\<close>)\<close>

text \<open>\<^verbatim>\<open>str.isspace\<close> on the code points below 256, and \<^verbatim>\<open>str.strip()\<close>.\<close>

definition py_isspace :: "char \<Rightarrow> bool" where
  "py_isspace c = (of_char c \<in> {9, 10, 11, 12, 13, 28, 29, 30, 31, 32, 133, 160 :: nat})"

definition py_strip :: "string \<Rightarrow> string" where
  "py_strip s = rev (dropWhile py_isspace (rev (dropWhile py_isspace s)))"

text \<open>Lines 31 to 37: every chunk is decoded by itself; the loop ends on an empty chunk or
  as soon as \<^verbatim>\<open>data_str\<close> holds a newline.\<close>

fun diag_recv_loop ::
  "(8 word list \<Rightarrow> string option) \<Rightarrow> recv_result list \<Rightarrow> string \<Rightarrow> string comp" where
  "diag_recv_loop dec [] data_str = (Returns data_str, [Recv []])"
| "diag_recv_loop dec (Chunk c # rs) data_str =
     (if c = [] then (Returns data_str, [Recv []])
      else seq (emit (Recv c)) (\<lambda>_.
        case dec c of
          None \<Rightarrow> (Raises UnicodeDecodeError, [])
        | Some chunk \<Rightarrow>
            if chunk = [] then (Returns data_str, [])
            else if CHR 0x0A \<in> set (data_str @ chunk) then (Returns (data_str @ chunk), [])
            else diag_recv_loop dec rs (data_str @ chunk)))"
| "diag_recv_loop dec (RecvRaises e # rs) data_str = (Raises e, [])"
| "diag_recv_loop dec (RecvBlocks # rs) data_str = (Blocks, [])"

text \<open>The text \<^verbatim>\<open>start_server\<close> passes to \<^verbatim>\<open>json.loads\<close> (lines 31 to 41).\<close>

definition diag_text :: "(8 word list \<Rightarrow> string option) \<Rightarrow> recv_result list \<Rightarrow> string comp" where
  "diag_text dec rs =
     seq (diag_recv_loop dec rs []) (\<lambda>data_str. (Returns (py_strip data_str), []))"

text \<open>The value \<^verbatim>\<open>json.loads\<close> returns to \<^verbatim>\<open>start_server\<close> (lines 31 to 41).\<close>

definition diag_payload :: "codec \<Rightarrow> recv_result list \<Rightarrow> json comp" where
  "diag_payload cd rs =
     seq (diag_text (utf8_decode cd) rs) (\<lambda>text.
       raise_or (case json_loads cd text of
                   None \<Rightarrow> Inl JSONDecodeError
                 | Some mission_data \<Rightarrow> Inr mission_data))"

subsection \<open>Concrete inputs\<close>

text \<open>
  The inputs of the examples below. On 7-bit input \<^verbatim>\<open>bytes.decode('utf-8')\<close> maps every
  byte to the character of the same code; \<open>ascii_decode\<close> is that function and rejects
  every other input. \<open>example_loads\<close> is \<^verbatim>\<open>json.loads\<close> on five texts it accepts;
  the examples apply it to no other text but \<^verbatim>\<open>not-json\<close>, which \<^verbatim>\<open>json.loads\<close> rejects.
\<close>

definition bytes_of :: "string \<Rightarrow> 8 word list" where
  "bytes_of s = map of_char s"

definition ascii_decode :: "8 word list \<Rightarrow> string option" where
  "ascii_decode bs =
     (if list_all (\<lambda>b. b < 128) bs then Some (map (\<lambda>b. char_of (unat b)) bs) else None)"

definition scenario_A :: json where
  "scenario_A =
     JObject [(''nav_waypoints'',
       JArray [JObject [(''latitude'', JFloat (Finite 1)), (''longitude'', JFloat (Finite 2))]])]"

definition scenario_B :: json where
  "scenario_B = JObject [(''nav_waypoints'', JArray [])]"

definition scenario_D :: json where
  "scenario_D =
     JObject [(''nav_waypoints'',
       JArray [JObject [(''latitude'', JFloat (Finite 10)), (''longitude'', JFloat (Finite 20))],
               JObject [(''latitude'', JFloat (Finite 30)), (''longitude'', JFloat (Finite 40))],
               JObject [(''latitude'', JFloat (Finite 50)), (''longitude'', JFloat (Finite 60))]])]"

definition example_loads :: "string \<Rightarrow> json option" where
  \<open>example_loads =
     map_of
       [(''{"nav_waypoints":[{"latitude":1.0,"longitude":2.0}]}'', scenario_A),
        (''{"nav_waypoints":[]}'', scenario_B),
        (''[1]'', JArray [JInt 1]),
        (''{}'', JObject []),
        (''{}\<newline>  '', JObject [])]\<close>

definition example_codec :: codec where
  "example_codec = \<lparr>utf8_decode = ascii_decode, json_loads = example_loads\<rparr>"

text \<open>An action server that is reachable, accepts the goal and finishes it; and one that
  accepts the goal and never finishes it.\<close>

definition accepting_server :: action_env where
  "accepting_server =
     \<lparr>wait_for_server = Returns (), send_goal_async = Returns (),
      spin_until_future_complete = Returns (),
      future_result = Inr (ClientGoalHandle True), goal_result = Returns 0\<rparr>"

definition never_finishing_server :: action_env where
  "never_finishing_server = accepting_server\<lparr>goal_result := Blocks\<rparr>"

text \<open>A peer that sends one chunk and closes.\<close>

definition client :: "string \<Rightarrow> connection" where
  "client text =
     \<lparr>peer = ''10.0.0.2'', recvs = [Chunk (bytes_of text)], action = accepting_server\<rparr>"

section \<open>Auxiliary facts\<close>

lemma seq_raise_or_Inr [simp]: "seq (raise_or (Inr a)) f = f a"
  by (cases "f a") (simp add: seq_def raise_or_def)

lemma seq_raise_or_Inl [simp]: "seq (raise_or (Inl e)) f = (Raises e, [])"
  by (simp add: seq_def raise_or_def)

lemma goals_sent_append: "goals_sent (es @ es') = goals_sent es @ goals_sent es'"
  by (induction es rule: goals_sent.induct) simp_all

subsection \<open>Building the waypoints\<close>

lemma build_waypoints_acc:
  "build_waypoints wps acc =
     (case build_waypoints wps [] of Inl e \<Rightarrow> Inl e | Inr ws \<Rightarrow> Inr (acc @ ws))"
proof (induction wps arbitrary: acc)
  case Nil
  then show ?case by simp
next
  case (Cons wp wps)
  show ?case
  proof (cases "build_waypoint wp")
    case (Inl e)
    then show ?thesis by simp
  next
    case (Inr w)
    then show ?thesis
      using Cons.IH [of "acc @ [w]"] Cons.IH [of "[w]"]
      by (simp split: sum.splits)
  qed
qed

lemma build_waypoints_Inr:
  "build_waypoints wps [] = Inr ws \<Longrightarrow>
     length ws = length wps \<and> (\<forall>i<length wps. build_waypoint (wps ! i) = Inr (ws ! i))"
proof (induction wps arbitrary: ws)
  case Nil
  then show ?case by simp
next
  case (Cons wp wps)
  from Cons.prems obtain w where w: "build_waypoint wp = Inr w"
    by (cases "build_waypoint wp") auto
  with Cons.prems have "build_waypoints wps [w] = Inr ws" by simp
  then obtain ws' where ws': "build_waypoints wps [] = Inr ws'" "ws = w # ws'"
    by (subst (asm) build_waypoints_acc) (auto split: sum.splits)
  from Cons.IH [OF ws'(1)] w ws'(2) show ?case
    by (auto simp: nth_Cons split: nat.splits)
qed

lemma build_waypoint_object:
  "build_waypoint (JObject fs) =
     Inr \<lparr>latitude = (case map_of fs ''latitude'' of None \<Rightarrow> JFloat (Finite 0) | Some v \<Rightarrow> v),
          longitude = (case map_of fs ''longitude'' of None \<Rightarrow> JFloat (Finite 0) | Some v \<Rightarrow> v)\<rparr>"
  by (simp add: build_waypoint_def)

lemma build_waypoint_not_object: "\<not> is_object wp \<Longrightarrow> build_waypoint wp = Inl AttributeError"
  by (cases wp) (simp_all add: build_waypoint_def)

lemma build_waypoints_objects:
  "list_all is_object wps \<Longrightarrow> \<exists>ws. build_waypoints wps [] = Inr ws"
proof (induction wps)
  case Nil
  then show ?case by simp
next
  case (Cons wp wps)
  then obtain fs where fs: "wp = JObject fs" by (cases wp) auto
  from Cons obtain ws where ws: "build_waypoints wps [] = Inr ws" by auto
  show ?case
    by (subst build_waypoints.simps, simp add: fs build_waypoint_object del: build_waypoints.simps)
       (subst build_waypoints_acc, simp add: ws)
qed

lemma build_waypoints_not_object:
  "\<not> list_all is_object wps \<Longrightarrow> build_waypoints wps acc = Inl AttributeError"
proof (induction wps arbitrary: acc)
  case Nil
  then show ?case by simp
next
  case (Cons wp wps)
  show ?case
  proof (cases "is_object wp")
    case True
    then obtain fs where fs: "wp = JObject fs" by (cases wp) auto
    from True Cons.prems have "\<not> list_all is_object wps" by simp
    from Cons.IH [OF this] show ?thesis by (simp add: fs build_waypoint_object)
  next
    case False
    then show ?thesis by (simp add: build_waypoint_not_object)
  qed
qed

lemma build_goal_Inr:
  assumes "build_goal (JObject kvs) w = Inr g" and "truthy w"
  shows "\<exists>wps. w = JArray wps \<and> build_waypoints wps [] = Inr (nav_waypoints g) \<and>
           search_object g = (case map_of kvs ''search_object'' of None \<Rightarrow> JInt 0 | Some v \<Rightarrow> v) \<and>
           search_pattern g = (case map_of kvs ''search_pattern'' of None \<Rightarrow> JInt 0 | Some v \<Rightarrow> v)"
proof (cases w)
  case (JString s)
  with assms(2) obtain c cs where "s = c # cs" by (cases s) auto
  with JString assms(1) show ?thesis
    by (simp add: build_goal_def build_waypoint_def)
next
  case (JObject fs)
  with assms(2) obtain k ks where "remdups (map fst fs) = k # ks"
    by (cases "remdups (map fst fs)") auto
  with JObject assms(1) show ?thesis
    by (simp add: build_goal_def build_waypoint_def)
next
  case (JArray wps)
  with assms(1) show ?thesis
    by (auto simp: build_goal_def split: sum.splits)
qed (use assms(1) in \<open>simp_all add: build_goal_def\<close>)

subsection \<open>The paths through \<^verbatim>\<open>send_mission\<close>\<close>

lemma no_waypoints_array: "no_waypoints (JArray wps) = Inr (wps = [])"
  by (simp add: no_waypoints_def)

lemma send_mission_array:
  assumes "map_of kvs ''nav_waypoints'' = Some (JArray wps)" and "wps \<noteq> []"
  shows "send_mission env (JObject kvs) =
           seq (raise_or (build_goal (JObject kvs) (JArray wps))) (dispatch env)"
  using assms by (simp add: send_mission_def no_waypoints_array)

lemma send_mission_dispatches:
  assumes "map_of kvs ''nav_waypoints'' = Some (JArray wps)" and "wps \<noteq> []"
      and "list_all is_object wps"
  shows "\<exists>g. build_goal (JObject kvs) (JArray wps) = Inr g \<and>
              send_mission env (JObject kvs) = dispatch env g \<and>
              length (nav_waypoints g) = length wps \<and>
              (\<forall>i<length wps. build_waypoint (wps ! i) = Inr (nav_waypoints g ! i))"
proof -
  from build_waypoints_objects [OF assms(3)]
  obtain ws where ws: "build_waypoints wps [] = Inr ws" ..
  let ?g = "\<lparr>search_object = (case map_of kvs ''search_object'' of None \<Rightarrow> JInt 0 | Some v \<Rightarrow> v),
             search_pattern = (case map_of kvs ''search_pattern'' of None \<Rightarrow> JInt 0 | Some v \<Rightarrow> v),
             nav_waypoints = ws\<rparr>"
  have g: "build_goal (JObject kvs) (JArray wps) = Inr ?g"
    by (simp add: build_goal_def ws)
  have "send_mission env (JObject kvs) = dispatch env ?g"
    by (simp add: send_mission_array [OF assms(1,2)] g)
  with g build_waypoints_Inr [OF ws] show ?thesis by auto
qed

lemma send_mission_empty:
  assumes "map_of kvs ''nav_waypoints'' = None \<or> (\<exists>v. map_of kvs ''nav_waypoints'' = Some v \<and> \<not> truthy v)"
  shows "send_mission env (JObject kvs) = (Returns (), [Log Warn NoWaypoints])"
  using assms by (auto simp: send_mission_def no_waypoints_def emit_def)

lemma send_mission_not_object:
  "\<not> is_object mission \<Longrightarrow> send_mission env mission = (Raises AttributeError, [])"
  by (cases mission) (simp_all add: send_mission_def)

lemma send_mission_bad_waypoint:
  assumes "map_of kvs ''nav_waypoints'' = Some (JArray wps)" and "\<not> list_all is_object wps"
  shows "send_mission env (JObject kvs) = (Raises AttributeError, [])"
proof -
  from assms(2) have "wps \<noteq> []" by auto
  from send_mission_array [OF assms(1) this]
  show ?thesis
    by (simp add: build_goal_def build_waypoints_not_object [OF assms(2)])
qed

lemma goals_sent_dispatch:
  "wait_for_server env = Returns () \<Longrightarrow> goals_sent (snd (dispatch env g)) = [g]"
  by (auto simp: dispatch_def seq_def emit_def call_def raise_or_def
           split: outcome.splits sum.splits prod.splits)

lemma SendGoalAsync_dispatch:
  "SendGoalAsync g' \<in> set (snd (dispatch env g)) \<Longrightarrow> g' = g"
  by (auto simp: dispatch_def seq_def emit_def call_def raise_or_def
           split: outcome.splits sum.splits prod.splits)

lemma SendGoalAsync_seq_raise_or:
  "SendGoalAsync g' \<in> set (snd (seq (raise_or r) (dispatch env))) \<Longrightarrow>
     \<exists>g. r = Inr g \<and> g' = g"
  by (cases r) (auto dest: SendGoalAsync_dispatch)

lemma send_mission_SendGoalAsync:
  assumes "SendGoalAsync g \<in> set (snd (send_mission env (JObject kvs)))"
  shows "\<exists>wps. map_of kvs ''nav_waypoints'' = Some (JArray wps) \<and> wps \<noteq> [] \<and>
           build_goal (JObject kvs) (JArray wps) = Inr g"
proof -
  let ?w = "case map_of kvs ''nav_waypoints'' of None \<Rightarrow> JArray [] | Some v \<Rightarrow> v"
  have sm: "send_mission env (JObject kvs) =
              seq (raise_or (no_waypoints ?w)) (\<lambda>none.
                if none then emit (Log Warn NoWaypoints)
                else seq (raise_or (build_goal (JObject kvs) ?w)) (dispatch env))"
    by (simp add: send_mission_def)
  show ?thesis
  proof (cases "no_waypoints ?w")
    case (Inl e)
    with assms sm show ?thesis by simp
  next
    case (Inr none)
    show ?thesis
    proof (cases none)
      case True
      with Inr assms sm show ?thesis by (simp add: emit_def)
    next
      case False
      with Inr have t: "truthy ?w"
        by (auto simp: no_waypoints_def split: if_splits)
      from False Inr assms sm
      have b: "build_goal (JObject kvs) ?w = Inr g"
        by (auto dest: SendGoalAsync_seq_raise_or)
      from build_goal_Inr [OF this t] obtain wps where wps: "?w = JArray wps" by blast
      with t have "wps \<noteq> []" by simp
      with wps b show ?thesis
        by (auto split: option.splits)
    qed
  qed
qed

lemma dispatch_goal_result: "dispatch (env\<lparr>goal_result := r\<rparr>) = dispatch env"
  by (rule ext) (simp add: dispatch_def)

lemma send_mission_goal_result:
  "send_mission (env\<lparr>goal_result := r\<rparr>) mission = send_mission env mission"
  unfolding send_mission_def dispatch_goal_result ..

subsection \<open>The paths through one turn of the loop\<close>

lemma recv_loop_no_goals: "goals_sent (snd (recv_loop rs data)) = []"
  by (induction rs data rule: recv_loop.induct)
     (auto simp: seq_def emit_def split: prod.splits outcome.splits)

lemma recv_loop_extends:
  "recv_loop rs data = (Returns data', es) \<Longrightarrow> \<exists>more. data' = data @ more"
proof (induction rs data arbitrary: es rule: recv_loop.induct)
  case (2 chunk rs data)
  show ?case
  proof (cases "chunk = []")
    case True
    with "2.prems" show ?thesis by simp
  next
    case False
    with "2.prems" obtain es' where "recv_loop rs (data @ chunk) = (Returns data', es')"
      by (auto simp: seq_def emit_def split: prod.splits outcome.splits)
    from "2.IH" [OF False this] show ?thesis by auto
  qed
qed simp_all

lemma recv_loop_chunks:
  "[] \<notin> set cs \<Longrightarrow>
     recv_loop (map Chunk cs) data = (Returns (data @ concat cs), map Recv cs @ [Recv []])"
  by (induction cs arbitrary: data) (auto simp: seq_def emit_def)

lemma decode_Inl:
  "decode cd data = Inl e \<longleftrightarrow>
     (utf8_decode cd data = None \<and> e = UnicodeDecodeError) \<or>
     (\<exists>text. utf8_decode cd data = Some text \<and> json_loads cd text = None \<and> e = JSONDecodeError)"
  by (auto simp: decode_def decode_text_def split: option.splits)

lemma handle_connection_decode_fails:
  assumes "recv_loop (recvs c) [] = (Returns data, es)" and "decode cd data = Inl e"
      and "is_Exception e"
  shows "handle_connection cd c =
           (Returns (),
            Accept (peer c) # Log Info (ConnectionFrom (peer c)) # es @
            [Log Error (FailedToParse e), Close])"
  using assms
  by (simp add: handle_connection_def seq_def emit_def with_conn_def except_Exception_def
        raise_or_def)

lemma handle_connection_decoded:
  assumes "recv_loop (recvs c) [] = (Returns data, es)" and "decode cd data = Inr mission"
  shows "handle_connection cd c =
           (case except_Exception
                   (seq (emit (Log Info (ReceivedMission mission)))
                      (\<lambda>_. send_mission (action c) mission)) of
              (Blocks, es') \<Rightarrow>
                (Blocks, Accept (peer c) # Log Info (ConnectionFrom (peer c)) # es @ es')
            | (r, es') \<Rightarrow>
                (r, Accept (peer c) # Log Info (ConnectionFrom (peer c)) # es @ es' @ [Close]))"
  using assms
  by (simp add: handle_connection_def seq_def emit_def with_conn_def raise_or_def
        split: prod.splits outcome.splits)


lemma run_continues:
  assumes "handle_connection cd c = (Returns (), es)"
  shows "run cd n (Connection c # rest) =
           (fst (run cd (Suc n) rest), map (Pair n) es @ snd (run cd (Suc n) rest))"
  using assms by (simp split: prod.splits)

subsection \<open>The order of the effects of a run\<close>



subsection \<open>Calls that have returned\<close>








subsection \<open>Reading a prefix of chunks\<close>

lemma recv_loop_prefix:
  "list_all (\<lambda>b. b \<noteq> []) pre \<Longrightarrow>
     recv_loop (map Chunk pre @ rs) data =
       (case recv_loop rs (data @ concat pre) of (r, es) \<Rightarrow> (r, map Recv pre @ es))"
proof (induction pre arbitrary: data)
  case Nil
  then show ?case by (simp split: prod.splits)
next
  case (Cons b pre)
  then have "b \<noteq> []" and "list_all (\<lambda>b. b \<noteq> []) pre" by simp_all
  with Cons.IH [of "data @ b"] show ?case
    by (cases "recv_loop rs (data @ b @ concat pre)") (simp add: seq_def emit_def)
qed

lemma diag_recv_loop_prefix:
  assumes "map dec pre = map Some ts" and "list_all (\<lambda>b. b \<noteq> []) pre"
      and "list_all (\<lambda>t. t \<noteq> [] \<and> CHR 0x0A \<notin> set t) ts" and "CHR 0x0A \<notin> set acc"
  shows "diag_recv_loop dec (map Chunk pre @ rs) acc =
           (case diag_recv_loop dec rs (acc @ concat ts) of (r, es) \<Rightarrow> (r, map Recv pre @ es))"
  using assms
proof (induction pre arbitrary: ts acc)
  case Nil
  then show ?case by (simp split: prod.splits)
next
  case (Cons b pre)
  from Cons.prems(1) obtain t ts' where ts: "ts = t # ts'" "dec b = Some t" "map dec pre = map Some ts'"
    by (cases ts) auto
  from Cons.prems(2) have b: "b \<noteq> []" "list_all (\<lambda>b. b \<noteq> []) pre" by simp_all
  from Cons.prems(3) ts(1) have t: "t \<noteq> []" "CHR 0x0A \<notin> set t"
    "list_all (\<lambda>t. t \<noteq> [] \<and> CHR 0x0A \<notin> set t) ts'" by simp_all
  from t(2) Cons.prems(4) have acc: "CHR 0x0A \<notin> set (acc @ t)" by simp
  from Cons.IH [OF ts(3) b(2) t(3) acc]
  have IH: "diag_recv_loop dec (map Chunk pre @ rs) (acc @ t) =
           (case diag_recv_loop dec rs ((acc @ t) @ concat ts') of (r, es) \<Rightarrow> (r, map Recv pre @ es))" .
  have "diag_recv_loop dec (map Chunk (b # pre) @ rs) acc =
          seq (emit (Recv b)) (\<lambda>_. diag_recv_loop dec (map Chunk pre @ rs) (acc @ t))"
    using b(1) ts(2) t(1) acc by simp
  also have "\<dots> = (case diag_recv_loop dec rs (acc @ concat ts) of
                      (r, es) \<Rightarrow> (r, map Recv (b # pre) @ es))"
    unfolding IH by (cases "diag_recv_loop dec rs ((acc @ t) @ concat ts')")
      (simp add: seq_def emit_def ts(1))
  finally show ?case .
qed

section \<open>The claims\<close>

subsection \<open>Waypoint order and count\<close>

text \<open>
  C1. For every decoded mission whose \<^verbatim>\<open>nav_waypoints\<close> is a non-empty list of waypoint
  objects, \<^verbatim>\<open>send_mission\<close> reaches the dispatch step with a goal that has exactly one
  waypoint per input object, in the input order: the \<open>i\<close>-th waypoint of the goal holds the
  latitude and the longitude of the \<open>i\<close>-th input object (0.0 where the key is missing). Once
  the action server is reachable, that goal and no other is submitted.
\<close>

theorem send_mission_preserves_waypoints:
  assumes "map_of kvs ''nav_waypoints'' = Some (JArray wps)" and "wps \<noteq> []"
      and "list_all is_object wps"
  shows "\<exists>g. send_mission env (JObject kvs) = dispatch env g \<and>
              length (nav_waypoints g) = length wps \<and>
              (\<forall>i<length wps. \<exists>fs. wps ! i = JObject fs \<and>
                 latitude (nav_waypoints g ! i) =
                   (case map_of fs ''latitude'' of None \<Rightarrow> JFloat (Finite 0) | Some v \<Rightarrow> v) \<and>
                 longitude (nav_waypoints g ! i) =
                   (case map_of fs ''longitude'' of None \<Rightarrow> JFloat (Finite 0) | Some v \<Rightarrow> v)) \<and>
              (wait_for_server env = Returns () \<longrightarrow>
                 goals_sent (snd (send_mission env (JObject kvs))) = [g])"
proof -
  from send_mission_dispatches [OF assms, of env] obtain g where
    g: "send_mission env (JObject kvs) = dispatch env g"
       "length (nav_waypoints g) = length wps"
       "\<forall>i<length wps. build_waypoint (wps ! i) = Inr (nav_waypoints g ! i)"
    by blast
  have "\<exists>fs. wps ! i = JObject fs \<and>
          latitude (nav_waypoints g ! i) =
            (case map_of fs ''latitude'' of None \<Rightarrow> JFloat (Finite 0) | Some v \<Rightarrow> v) \<and>
          longitude (nav_waypoints g ! i) =
            (case map_of fs ''longitude'' of None \<Rightarrow> JFloat (Finite 0) | Some v \<Rightarrow> v)"
    if i: "i < length wps" for i
  proof -
    from assms(3) i have "is_object (wps ! i)" by (simp add: list_all_length)
    then obtain fs where fs: "wps ! i = JObject fs" by (cases "wps ! i") auto
    from g(3) i have "build_waypoint (wps ! i) = Inr (nav_waypoints g ! i)" by simp
    then have "nav_waypoints g ! i =
      \<lparr>latitude = (case map_of fs ''latitude'' of None \<Rightarrow> JFloat (Finite 0) | Some v \<Rightarrow> v),
       longitude = (case map_of fs ''longitude'' of None \<Rightarrow> JFloat (Finite 0) | Some v \<Rightarrow> v)\<rparr>"
      by (simp add: fs build_waypoint_object)
    with fs show ?thesis by simp
  qed
  with g(1,2) show ?thesis by (auto simp: goals_sent_dispatch)
qed

theorem send_mission_preserves_waypoints_witness:
  "\<exists>g. send_mission accepting_server scenario_D = dispatch accepting_server g \<and>
        nav_waypoints g =
          [\<lparr>latitude = JFloat (Finite 10), longitude = JFloat (Finite 20)\<rparr>,
           \<lparr>latitude = JFloat (Finite 30), longitude = JFloat (Finite 40)\<rparr>,
           \<lparr>latitude = JFloat (Finite 50), longitude = JFloat (Finite 60)\<rparr>] \<and>
        goals_sent (snd (send_mission accepting_server scenario_D)) = [g]"
proof -
  let ?w1 = "JObject [(''latitude'', JFloat (Finite 10)), (''longitude'', JFloat (Finite 20))]"
  let ?w2 = "JObject [(''latitude'', JFloat (Finite 30)), (''longitude'', JFloat (Finite 40))]"
  let ?w3 = "JObject [(''latitude'', JFloat (Finite 50)), (''longitude'', JFloat (Finite 60))]"
  let ?wps = "[?w1, ?w2, ?w3]"
  let ?kvs = "[(''nav_waypoints'', JArray ?wps)]"
  have h1: "map_of ?kvs ''nav_waypoints'' = Some (JArray ?wps)" by simp
  have h2: "?wps \<noteq> []" by simp
  have h3: "list_all is_object ?wps" by simp
  have w: "wait_for_server accepting_server = Returns ()" by (simp add: accepting_server_def)
  from send_mission_preserves_waypoints [OF h1 h2 h3, of accepting_server] w
  obtain g where g: "send_mission accepting_server (JObject ?kvs) = dispatch accepting_server g"
    and len: "length (nav_waypoints g) = 3"
    and nth: "\<forall>i<3. \<exists>fs. ?wps ! i = JObject fs \<and>
                 latitude (nav_waypoints g ! i) =
                   (case map_of fs ''latitude'' of None \<Rightarrow> JFloat (Finite 0) | Some v \<Rightarrow> v) \<and>
                 longitude (nav_waypoints g ! i) =
                   (case map_of fs ''longitude'' of None \<Rightarrow> JFloat (Finite 0) | Some v \<Rightarrow> v)"
    and sent: "goals_sent (snd (send_mission accepting_server (JObject ?kvs))) = [g]"
    by auto
  from len obtain a b c where abc: "nav_waypoints g = [a, b, c]"
    by (auto simp: numeral_3_eq_3 length_Suc_conv)
  from nth [THEN spec, of 0] abc
  have a: "a = \<lparr>latitude = JFloat (Finite 10), longitude = JFloat (Finite 20)\<rparr>"
    by (cases a) auto
  from nth [THEN spec, of 1] abc
  have b: "b = \<lparr>latitude = JFloat (Finite 30), longitude = JFloat (Finite 40)\<rparr>"
    by (cases b) auto
  from nth [THEN spec, of 2] abc
  have c: "c = \<lparr>latitude = JFloat (Finite 50), longitude = JFloat (Finite 60)\<rparr>"
    by (cases c) auto
  from g sent abc a b c show ?thesis unfolding scenario_D_def by blast
qed

subsection \<open>What the dispatch step waits for\<close>

text \<open>
  C2, as stated, fails. With an action server that accepts the goal and never finishes it,
  \<^verbatim>\<open>send_mission\<close> returns all the same, and what it logs is the client goal handle.
\<close>

theorem dispatch_returns_before_completion:
  "goal_result never_finishing_server = Blocks \<and>
   send_mission never_finishing_server scenario_A =
     (Returns (),
      [Log Info SendingGoal, WaitForServer,
       SendGoalAsync
         \<lparr>search_object = JInt 0, search_pattern = JInt 0,
          nav_waypoints = [\<lparr>latitude = JFloat (Finite 1), longitude = JFloat (Finite 2)\<rparr>]\<rparr>,
       SpinUntilFutureComplete,
       Log Info (MissionGoalSent (ClientGoalHandle True))])"
  by (simp add: never_finishing_server_def accepting_server_def scenario_A_def send_mission_def
        no_waypoints_def build_goal_def build_waypoint_def dispatch_def seq_def emit_def call_def
        raise_or_def)

text \<open>
  C2, amended. For every mission whose \<^verbatim>\<open>nav_waypoints\<close> is a non-empty list of waypoint
  objects, once the server is reachable and the goal has been submitted asynchronously, the
  dispatch step blocks until the send-goal future completes, that is until the action server
  has answered the goal request: while the future is pending \<^verbatim>\<open>send_mission\<close> does not
  return, and when it completes \<^verbatim>\<open>send_mission\<close> logs the future's result, the client goal
  handle, and returns. Whether and how the goal itself finishes has no influence.
\<close>

theorem dispatch_awaits_goal_response:
  assumes "map_of kvs ''nav_waypoints'' = Some (JArray wps)" and "wps \<noteq> []"
      and "list_all is_object wps"
      and "wait_for_server env = Returns ()" and "send_goal_async env = Returns ()"
  shows "\<exists>g. build_goal (JObject kvs) (JArray wps) = Inr g \<and>
           (spin_until_future_complete env = Blocks \<longrightarrow>
              send_mission env (JObject kvs) =
                (Blocks, [Log Info SendingGoal, WaitForServer, SendGoalAsync g,
                          SpinUntilFutureComplete])) \<and>
           (\<forall>h. spin_until_future_complete env = Returns () \<and> future_result env = Inr h \<longrightarrow>
              send_mission env (JObject kvs) =
                (Returns (), [Log Info SendingGoal, WaitForServer, SendGoalAsync g,
                              SpinUntilFutureComplete, Log Info (MissionGoalSent h)])) \<and>
           (\<forall>r. send_mission (env\<lparr>goal_result := r\<rparr>) (JObject kvs) =
                send_mission env (JObject kvs))"
proof -
  from send_mission_dispatches [OF assms(1-3), of env] obtain g where
    g: "build_goal (JObject kvs) (JArray wps) = Inr g"
       "send_mission env (JObject kvs) = dispatch env g"
    by blast
  have "spin_until_future_complete env = Blocks \<Longrightarrow>
          dispatch env g =
            (Blocks, [Log Info SendingGoal, WaitForServer, SendGoalAsync g,
                      SpinUntilFutureComplete])"
    using assms(4,5) by (simp add: dispatch_def seq_def emit_def call_def)
  moreover have "spin_until_future_complete env = Returns () \<Longrightarrow> future_result env = Inr h \<Longrightarrow>
          dispatch env g =
            (Returns (), [Log Info SendingGoal, WaitForServer, SendGoalAsync g,
                          SpinUntilFutureComplete, Log Info (MissionGoalSent h)])" for h
    using assms(4,5) by (simp add: dispatch_def seq_def emit_def call_def raise_or_def)
  ultimately show ?thesis
    using g by (auto simp: send_mission_goal_result)
qed

theorem dispatch_awaits_goal_response_witness:
  "\<exists>g. goals_sent (snd (send_mission accepting_server scenario_A)) = [g] \<and>
        send_mission accepting_server scenario_A =
          (Returns (), [Log Info SendingGoal, WaitForServer, SendGoalAsync g,
                        SpinUntilFutureComplete,
                        Log Info (MissionGoalSent (ClientGoalHandle True))]) \<and>
        send_mission (accepting_server\<lparr>spin_until_future_complete := Blocks\<rparr>) scenario_A =
          (Blocks, [Log Info SendingGoal, WaitForServer, SendGoalAsync g,
                    SpinUntilFutureComplete])"
proof -
  let ?wp = "JObject [(''latitude'', JFloat (Finite 1)), (''longitude'', JFloat (Finite 2))]"
  let ?kvs = "[(''nav_waypoints'', JArray [?wp])]"
  let ?pending = "accepting_server\<lparr>spin_until_future_complete := Blocks\<rparr>"
  have h1: "map_of ?kvs ''nav_waypoints'' = Some (JArray [?wp])" by simp
  have h2: "[?wp] \<noteq> []" by simp
  have h3: "list_all is_object [?wp]" by simp
  have h4: "wait_for_server accepting_server = Returns ()" "wait_for_server ?pending = Returns ()"
    by (simp_all add: accepting_server_def)
  have h5: "send_goal_async accepting_server = Returns ()" "send_goal_async ?pending = Returns ()"
    by (simp_all add: accepting_server_def)
  have a: "spin_until_future_complete accepting_server = Returns () \<and>
           future_result accepting_server = Inr (ClientGoalHandle True)"
    by (simp add: accepting_server_def)
  have b: "spin_until_future_complete ?pending = Blocks" by simp
  from dispatch_awaits_goal_response [OF h1 h2 h3 h4(1) h5(1)] a
       dispatch_awaits_goal_response [OF h1 h2 h3 h4(2) h5(2)] b
  show ?thesis unfolding scenario_A_def by auto
qed

subsection \<open>Missions without waypoints\<close>

text \<open>
  C3. For every decoded payload (a dict) whose \<^verbatim>\<open>nav_waypoints\<close> field is absent or the
  empty list, \<^verbatim>\<open>send_mission\<close> logs the warning, performs no other effect and returns
  without raising; a connection whose bytes decode to such a payload submits no goal and is
  closed normally.
\<close>

theorem send_mission_no_waypoints:
  assumes "map_of kvs ''nav_waypoints'' = None \<or> map_of kvs ''nav_waypoints'' = Some (JArray [])"
  shows "send_mission env (JObject kvs) = (Returns (), [Log Warn NoWaypoints]) \<and>
         (\<forall>cd c data es.
            recv_loop (recvs c) [] = (Returns data, es) \<and> decode cd data = Inr (JObject kvs) \<longrightarrow>
            handle_connection cd c =
              (Returns (),
               Accept (peer c) # Log Info (ConnectionFrom (peer c)) # es @
               [Log Info (ReceivedMission (JObject kvs)), Log Warn NoWaypoints, Close]) \<and>
            goals_sent (snd (handle_connection cd c)) = [])"
proof -
  from assms have s: "send_mission env (JObject kvs) = (Returns (), [Log Warn NoWaypoints])" for env
    by (intro send_mission_empty) auto
  have "handle_connection cd c =
          (Returns (),
           Accept (peer c) # Log Info (ConnectionFrom (peer c)) # es @
           [Log Info (ReceivedMission (JObject kvs)), Log Warn NoWaypoints, Close]) \<and>
        goals_sent (snd (handle_connection cd c)) = []"
    if r: "recv_loop (recvs c) [] = (Returns data, es)" and d: "decode cd data = Inr (JObject kvs)"
    for cd c data es
  proof -
    have "goals_sent es = []"
      using recv_loop_no_goals [of "recvs c" "[]"] r by simp
    with handle_connection_decoded [OF r d] show ?thesis
      by (simp add: s except_Exception_def seq_def emit_def goals_sent_append)
  qed
  with s show ?thesis by blast
qed

theorem send_mission_no_waypoints_witness:
  \<open>send_mission accepting_server scenario_B = (Returns (), [Log Warn NoWaypoints]) \<and>
   goals_sent (snd (handle_connection example_codec (client ''{"nav_waypoints":[]}''))) = [] \<and>
   fst (handle_connection example_codec (client ''{"nav_waypoints":[]}'')) = Returns ()\<close>
proof -
  let ?c = \<open>client ''{"nav_waypoints":[]}''\<close>
  have h: "map_of [(''nav_waypoints'', JArray [])] ''nav_waypoints'' = None \<or>
           map_of [(''nav_waypoints'', JArray [])] ''nav_waypoints'' = Some (JArray [])"
    by simp
  have r: \<open>recv_loop (recvs ?c) [] =
             (Returns (bytes_of ''{"nav_waypoints":[]}''),
              [Recv (bytes_of ''{"nav_waypoints":[]}''), Recv []])\<close>
    by (simp add: client_def bytes_of_def seq_def emit_def)
  have d: \<open>decode example_codec (bytes_of ''{"nav_waypoints":[]}'') =
             Inr (JObject [(''nav_waypoints'', JArray [])])\<close>
    by code_simp
  from send_mission_no_waypoints [OF h, of accepting_server] r d
  show ?thesis unfolding scenario_B_def by auto
qed

subsection \<open>Malformed input\<close>

text \<open>
  C4. For every accumulated byte buffer that is not valid UTF-8 or not valid JSON, the
  connection submits no goal, the error is logged at error level, the connection is closed,
  and the loop goes on with the next turn exactly as it would have without this connection.
\<close>

theorem malformed_input_is_dropped:
  assumes "recv_loop (recvs c) [] = (Returns data, es)"
      and "utf8_decode cd data = None \<or>
           (\<exists>text. utf8_decode cd data = Some text \<and> json_loads cd text = None)"
  shows "\<exists>e. (e = UnicodeDecodeError \<or> e = JSONDecodeError) \<and>
           handle_connection cd c =
             (Returns (),
              Accept (peer c) # Log Info (ConnectionFrom (peer c)) # es @
              [Log Error (FailedToParse e), Close]) \<and>
           goals_sent (snd (handle_connection cd c)) = [] \<and>
           run cd n (Connection c # rest) =
             (fst (run cd (Suc n) rest),
              map (Pair n) (snd (handle_connection cd c)) @ snd (run cd (Suc n) rest))"
proof -
  from assms(2) obtain e where e: "decode cd data = Inl e"
    and e': "e = UnicodeDecodeError \<or> e = JSONDecodeError"
    by (auto simp: decode_Inl)
  from e' have "is_Exception e" by auto
  from handle_connection_decode_fails [OF assms(1) e this]
  have h: "handle_connection cd c =
             (Returns (),
              Accept (peer c) # Log Info (ConnectionFrom (peer c)) # es @
              [Log Error (FailedToParse e), Close])" .
  have "goals_sent es = []"
    using recv_loop_no_goals [of "recvs c" "[]"] assms(1) by simp
  then have g: "goals_sent (snd (handle_connection cd c)) = []"
    by (simp add: h goals_sent_append)
  from run_continues [OF h, of n rest] e' h g show ?thesis by auto
qed

theorem malformed_input_is_dropped_witness:
  \<open>goals_sent (snd (handle_connection example_codec (client ''not-json''))) = [] \<and>
   run example_codec 0 [Connection (client ''not-json''), Connection (client ''{"nav_waypoints":[]}'')] =
     (Accepting,
      map (Pair 0) (snd (handle_connection example_codec (client ''not-json''))) @
      map (Pair 1) (snd (handle_connection example_codec (client ''{"nav_waypoints":[]}''))))\<close>
proof -
  let ?c = "client ''not-json''"
  let ?c' = \<open>client ''{"nav_waypoints":[]}''\<close>
  have r: "recv_loop (recvs ?c) [] =
             (Returns (bytes_of ''not-json''), [Recv (bytes_of ''not-json''), Recv []])"
    by (simp add: client_def bytes_of_def seq_def emit_def)
  have u: "utf8_decode example_codec (bytes_of ''not-json'') = Some ''not-json''"
    by code_simp
  have j: "json_loads example_codec ''not-json'' = None"
    by code_simp
  from u j have d: "utf8_decode example_codec (bytes_of ''not-json'') = None \<or>
      (\<exists>text. utf8_decode example_codec (bytes_of ''not-json'') = Some text \<and>
              json_loads example_codec text = None)"
    by simp
  have "fst (handle_connection example_codec ?c') = Returns ()"
    by code_simp
  then have n: "run example_codec 1 [Connection ?c'] =
                  (Accepting, map (Pair 1) (snd (handle_connection example_codec ?c')))"
    by (cases "handle_connection example_codec ?c'") simp
  from malformed_input_is_dropped [OF r d, of 0 "[Connection ?c']"] n
  show ?thesis by auto
qed

text \<open>
  C9. For every byte buffer that decodes to a JSON value that is not an object, or to an
  object whose \<^verbatim>\<open>nav_waypoints\<close> is a list with an element that is not an object, the
  \<^verbatim>\<open>AttributeError\<close> of the field extraction is caught by the handler that catches decode
  errors: it is logged at error level, no goal is submitted, the connection is closed, and the
  loop goes on with the next turn.
\<close>

theorem field_extraction_error_is_caught:
  assumes "recv_loop (recvs c) [] = (Returns data, es)"
      and "decode cd data = Inr mission"
      and "\<not> is_object mission \<or>
           (\<exists>kvs wps. mission = JObject kvs \<and>
              map_of kvs ''nav_waypoints'' = Some (JArray wps) \<and> \<not> list_all is_object wps)"
  shows "handle_connection cd c =
           (Returns (),
            Accept (peer c) # Log Info (ConnectionFrom (peer c)) # es @
            [Log Info (ReceivedMission mission), Log Error (FailedToParse AttributeError), Close]) \<and>
         goals_sent (snd (handle_connection cd c)) = [] \<and>
         run cd n (Connection c # rest) =
           (fst (run cd (Suc n) rest),
            map (Pair n) (snd (handle_connection cd c)) @ snd (run cd (Suc n) rest))"
proof -
  from assms(3) have "send_mission (action c) mission = (Raises AttributeError, [])"
    by (auto simp: send_mission_not_object intro: send_mission_bad_waypoint)
  with handle_connection_decoded [OF assms(1,2)]
  have h: "handle_connection cd c =
           (Returns (),
            Accept (peer c) # Log Info (ConnectionFrom (peer c)) # es @
            [Log Info (ReceivedMission mission), Log Error (FailedToParse AttributeError), Close])"
    by (simp add: except_Exception_def seq_def emit_def)
  have "goals_sent es = []"
    using recv_loop_no_goals [of "recvs c" "[]"] assms(1) by simp
  then have g: "goals_sent (snd (handle_connection cd c)) = []"
    by (simp add: h goals_sent_append)
  from run_continues [OF h, of n rest] h g show ?thesis by auto
qed

theorem field_extraction_error_is_caught_witness:
  \<open>handle_connection example_codec (client ''[1]'') =
     (Returns (),
      [Accept ''10.0.0.2'', Log Info (ConnectionFrom ''10.0.0.2''),
       Recv (bytes_of ''[1]''), Recv [],
       Log Info (ReceivedMission (JArray [JInt 1])),
       Log Error (FailedToParse AttributeError), Close]) \<and>
   fst (run example_codec 0 [Connection (client ''[1]''), Shutdown]) = Exited\<close>
proof -
  let ?c = "client ''[1]''"
  have r: "recv_loop (recvs ?c) [] = (Returns (bytes_of ''[1]''), [Recv (bytes_of ''[1]''), Recv []])"
    by (simp add: client_def bytes_of_def seq_def emit_def)
  have d: "decode example_codec (bytes_of ''[1]'') = Inr (JArray [JInt 1])"
    by code_simp
  have m: "\<not> is_object (JArray [JInt 1]) \<or>
           (\<exists>kvs wps. JArray [JInt 1] = JObject kvs \<and>
              map_of kvs ''nav_waypoints'' = Some (JArray wps) \<and> \<not> list_all is_object wps)"
    by simp
  have p: "peer ?c = ''10.0.0.2''" by (simp add: client_def)
  from field_extraction_error_is_caught [OF r d m, of 0 "[Shutdown]"] p
  show ?thesis by simp
qed

subsection \<open>Defaults\<close>

text \<open>
  C5. For every decoded payload that is dispatched (a goal \<open>g\<close> is handed to
  \<^verbatim>\<open>send_goal_async\<close>): a missing \<^verbatim>\<open>search_object\<close> key yields 0 in \<open>g\<close>, a missing
  \<^verbatim>\<open>search_pattern\<close> key yields 0, and, for each waypoint object of the payload, a missing
  \<^verbatim>\<open>latitude\<close> or \<^verbatim>\<open>longitude\<close> key yields 0.0 in that field of the waypoint built from it.
\<close>

theorem send_mission_defaults:
  assumes "SendGoalAsync g \<in> set (snd (send_mission env (JObject kvs)))"
  shows "(map_of kvs ''search_object'' = None \<longrightarrow> search_object g = JInt 0) \<and>
         (map_of kvs ''search_pattern'' = None \<longrightarrow> search_pattern g = JInt 0) \<and>
         (\<exists>wps. map_of kvs ''nav_waypoints'' = Some (JArray wps) \<and>
            length (nav_waypoints g) = length wps \<and>
            (\<forall>i<length wps. \<exists>fs. wps ! i = JObject fs \<and>
               (map_of fs ''latitude'' = None \<longrightarrow>
                  latitude (nav_waypoints g ! i) = JFloat (Finite 0)) \<and>
               (map_of fs ''longitude'' = None \<longrightarrow>
                  longitude (nav_waypoints g ! i) = JFloat (Finite 0))))"
proof -
  from send_mission_SendGoalAsync [OF assms] obtain wps where
    wps: "map_of kvs ''nav_waypoints'' = Some (JArray wps)" "wps \<noteq> []"
    and g: "build_goal (JObject kvs) (JArray wps) = Inr g"
    by blast
  from build_goal_Inr [OF g] wps(2)
  have ws: "build_waypoints wps [] = Inr (nav_waypoints g)"
    and so: "search_object g = (case map_of kvs ''search_object'' of None \<Rightarrow> JInt 0 | Some v \<Rightarrow> v)"
    and sp: "search_pattern g = (case map_of kvs ''search_pattern'' of None \<Rightarrow> JInt 0 | Some v \<Rightarrow> v)"
    by auto
  from build_waypoints_Inr [OF ws]
  have len: "length (nav_waypoints g) = length wps"
    and nth: "\<And>i. i < length wps \<Longrightarrow> build_waypoint (wps ! i) = Inr (nav_waypoints g ! i)"
    by auto
  have "\<exists>fs. wps ! i = JObject fs \<and>
          (map_of fs ''latitude'' = None \<longrightarrow> latitude (nav_waypoints g ! i) = JFloat (Finite 0)) \<and>
          (map_of fs ''longitude'' = None \<longrightarrow> longitude (nav_waypoints g ! i) = JFloat (Finite 0))"
    if "i < length wps" for i
  proof -
    from nth [OF that] have "is_object (wps ! i)"
      using build_waypoint_not_object [of "wps ! i"] by auto
    then obtain fs where fs: "wps ! i = JObject fs" by (cases "wps ! i") auto
    with nth [OF that] have "nav_waypoints g ! i =
      \<lparr>latitude = (case map_of fs ''latitude'' of None \<Rightarrow> JFloat (Finite 0) | Some v \<Rightarrow> v),
       longitude = (case map_of fs ''longitude'' of None \<Rightarrow> JFloat (Finite 0) | Some v \<Rightarrow> v)\<rparr>"
      by (simp add: build_waypoint_object)
    with fs show ?thesis by simp
  qed
  with so sp wps(1) len show ?thesis by auto
qed

theorem send_mission_defaults_witness:
  "\<exists>g. goals_sent (snd (send_mission accepting_server
          (JObject [(''nav_waypoints'', JArray [JObject [(''latitude'', JFloat (Finite 7))]])]))) = [g] \<and>
        search_object g = JInt 0 \<and> search_pattern g = JInt 0 \<and>
        latitude (nav_waypoints g ! 0) = JFloat (Finite 7) \<and>
        longitude (nav_waypoints g ! 0) = JFloat (Finite 0)"
proof -
  let ?kvs = "[(''nav_waypoints'', JArray [JObject [(''latitude'', JFloat (Finite 7))]])]"
  let ?g = "\<lparr>search_object = JInt 0, search_pattern = JInt 0,
             nav_waypoints = [\<lparr>latitude = JFloat (Finite 7), longitude = JFloat (Finite 0)\<rparr>]\<rparr>"
  have s: "snd (send_mission accepting_server (JObject ?kvs)) =
             [Log Info SendingGoal, WaitForServer, SendGoalAsync ?g, SpinUntilFutureComplete,
              Log Info (MissionGoalSent (ClientGoalHandle True))]"
    by (simp add: accepting_server_def send_mission_def no_waypoints_def build_goal_def
          build_waypoint_def dispatch_def seq_def emit_def call_def raise_or_def)
  then have h: "SendGoalAsync ?g \<in> set (snd (send_mission accepting_server (JObject ?kvs)))"
    by simp
  from send_mission_defaults [OF h]
  have "search_object ?g = JInt 0 \<and> search_pattern ?g = JInt 0 \<and>
        longitude (nav_waypoints ?g ! 0) = JFloat (Finite 0)"
    by auto
  with s show ?thesis by simp
qed

text \<open>
  C10. For every decoded payload (a dict) in which \<^verbatim>\<open>nav_waypoints\<close> is bound to JSON
  \<^verbatim>\<open>null\<close> or to any other falsy value, \<^verbatim>\<open>send_mission\<close> does what it does for the empty
  list: it logs the warning and returns, with no exception and no goal submitted.
\<close>

theorem send_mission_falsy_waypoints:
  assumes "map_of kvs ''nav_waypoints'' = Some v" and "\<not> truthy v"
  shows "send_mission env (JObject kvs) = (Returns (), [Log Warn NoWaypoints]) \<and>
         send_mission env (JObject kvs) =
           send_mission env (JObject [(''nav_waypoints'', JArray [])])"
  using assms by (simp add: send_mission_def no_waypoints_def emit_def)

theorem send_mission_falsy_waypoints_witness:
  "send_mission accepting_server (JObject [(''search_object'', JInt 2), (''nav_waypoints'', JNull)]) =
     (Returns (), [Log Warn NoWaypoints])"
proof -
  have h1: "map_of [(''search_object'', JInt 2), (''nav_waypoints'', JNull)] ''nav_waypoints'' =
              Some JNull"
    by simp
  have h2: "\<not> truthy JNull" by simp
  from send_mission_falsy_waypoints [OF h1 h2, of accepting_server] show ?thesis by simp
qed

subsection \<open>Errors while reading\<close>

text \<open>
  C6 says that no error of a single connection ends the worker loop, a read error included:
  the bytes read so far go to the translator and the loop accepts the next connection. The
  code does this for every \<^verbatim>\<open>Exception\<close> raised while decoding or dispatching, as the
  second run below shows for a failing \<^verbatim>\<open>send_goal_async\<close>. It does not for
  \<^verbatim>\<open>conn.recv\<close>, which stands outside the \<^verbatim>\<open>try\<close> block: in the first run the peer
  resets the connection after one chunk, the exception leaves \<^verbatim>\<open>run\<close>, the bytes read are
  never decoded, nothing is logged at error level, and the second peer is never accepted.
\<close>

theorem recv_error_terminates_run:
  \<open>run example_codec 0
     [Connection \<lparr>peer = ''10.0.0.2'',
                  recvs = [Chunk (bytes_of ''{"nav''), RecvRaises ConnectionResetError],
                  action = accepting_server\<rparr>,
      Connection (client ''{"nav_waypoints":[]}'')] =
   (Crashed ConnectionResetError,
    [(0, Accept ''10.0.0.2''), (0, Log Info (ConnectionFrom ''10.0.0.2'')),
     (0, Recv (bytes_of ''{"nav'')), (0, Close)]) \<and>
   run example_codec 0
     [Connection \<lparr>peer = ''10.0.0.2'',
                  recvs = [Chunk (bytes_of ''{"nav_waypoints":[{"latitude":1.0,"longitude":2.0}]}'')],
                  action = accepting_server\<lparr>send_goal_async := Raises ActionClientError\<rparr>\<rparr>,
      Shutdown] =
   (Exited,
    [(0, Accept ''10.0.0.2''), (0, Log Info (ConnectionFrom ''10.0.0.2'')),
     (0, Recv (bytes_of ''{"nav_waypoints":[{"latitude":1.0,"longitude":2.0}]}'')),
     (0, Recv []),
     (0, Log Info (ReceivedMission scenario_A)),
     (0, Log Info SendingGoal), (0, WaitForServer),
     (0, SendGoalAsync
           \<lparr>search_object = JInt 0, search_pattern = JInt 0,
            nav_waypoints = [\<lparr>latitude = JFloat (Finite 1), longitude = JFloat (Finite 2)\<rparr>]\<rparr>),
     (0, Log Error (FailedToParse ActionClientError)), (0, Close)])\<close>
  by code_simp

subsection \<open>One connection at a time\<close>



subsection \<open>Framing: end of stream and newline\<close>

text \<open>
  C8, as stated, fails. The only chunk of the first stream holds a newline followed by more
  data; both variants read the whole chunk and pass the same text to \<^verbatim>\<open>json.loads\<close>.
  In the second stream a further chunk follows, which only the primary bridge reads; it holds
  white space, and both variants decode the same value.
\<close>

theorem same_chunk_same_text:
  \<open>CHR 0x0A \<in> set ''1\<newline>2'' \<and>
   bridge_text ascii_decode [Chunk (bytes_of ''1\<newline>2'')] =
     (Returns ''1\<newline>2'', [Recv (bytes_of ''1\<newline>2''), Recv []]) \<and>
   diag_text ascii_decode [Chunk (bytes_of ''1\<newline>2'')] =
     (Returns ''1\<newline>2'', [Recv (bytes_of ''1\<newline>2'')]) \<and>
   bridge_payload example_codec [Chunk (bytes_of ''{}\<newline> ''), Chunk (bytes_of '' '')] =
     (Returns (JObject []),
      [Recv (bytes_of ''{}\<newline> ''), Recv (bytes_of '' ''), Recv []]) \<and>
   diag_payload example_codec [Chunk (bytes_of ''{}\<newline> ''), Chunk (bytes_of '' '')] =
     (Returns (JObject []), [Recv (bytes_of ''{}\<newline> '')])\<close>
  by code_simp

text \<open>
  C8, amended. The primary bridge accumulates bytes until end of stream (an empty
  \<^verbatim>\<open>recv\<close>) and only then decodes; the diagnostic variant also reads until end of stream
  but stops earlier, after the chunk that brings the first newline into the data received so
  far, whichever chunk that is; it keeps that chunk whole and strips the text. Hence, for a
  stream in which the chunk with the first newline is followed by a further non-empty chunk,
  the diagnostic variant decodes the chunks up to that one only and reads nothing after it,
  while the buffer the primary bridge decodes also holds the later chunk and is strictly
  longer. When the stream ends with the chunk that holds the newline, both variants read the
  same chunks, whatever follows the newline inside that chunk included.
\<close>

theorem framing_variants:
  assumes "map dec pre = map Some ts" and "list_all (\<lambda>b. b \<noteq> []) pre"
      and "list_all (\<lambda>t. t \<noteq> [] \<and> CHR 0x0A \<notin> set t) ts"
      and "c \<noteq> []" and "dec c = Some t" and "CHR 0x0A \<in> set t" and "c' \<noteq> []"
  shows "diag_text dec (map Chunk pre @ Chunk c # Chunk c' # rest) =
           (Returns (py_strip (concat ts @ t)), map Recv pre @ [Recv c]) \<and>
         (\<forall>data es. recv_loop (map Chunk pre @ Chunk c # Chunk c' # rest) [] = (Returns data, es) \<longrightarrow>
            (\<exists>more es'. data = concat pre @ c @ c' @ more \<and>
                        es = map Recv pre @ Recv c # Recv c' # es') \<and>
            length (concat pre @ c) < length data) \<and>
         diag_text dec (map Chunk pre @ [Chunk c]) =
           (Returns (py_strip (concat ts @ t)), map Recv pre @ [Recv c]) \<and>
         recv_loop (map Chunk pre @ [Chunk c]) [] =
           (Returns (concat pre @ c), map Recv pre @ [Recv c, Recv []]) \<and>
         (pre = [] \<longrightarrow> bridge_text dec [Chunk c] = (Returns t, [Recv c, Recv []])) \<and>
         diag_text dec (map Chunk pre) =
           (Returns (py_strip (concat ts)), map Recv pre @ [Recv []]) \<and>
         (\<forall>cs. [] \<notin> set cs \<longrightarrow>
            recv_loop (map Chunk cs) [] = (Returns (concat cs), map Recv cs @ [Recv []]))"
proof -
  have nl: "CHR 0x0A \<notin> set ([]::string)" by simp
  have stop: "diag_recv_loop dec (Chunk c # rs) (concat ts) = (Returns (concat ts @ t), [Recv c])" for rs
    using assms(4-6) by (auto simp: seq_def emit_def)
  have d: "diag_text dec (map Chunk pre @ Chunk c # rs) =
             (Returns (py_strip (concat ts @ t)), map Recv pre @ [Recv c])" for rs
    unfolding diag_text_def
    by (simp add: diag_recv_loop_prefix [OF assms(1-3) nl] stop seq_def del: diag_recv_loop.simps)
  have d0: "diag_text dec (map Chunk pre) =
             (Returns (py_strip (concat ts)), map Recv pre @ [Recv []])"
    unfolding diag_text_def
    using diag_recv_loop_prefix [OF assms(1-3) nl, of "[]"] by (simp add: seq_def)
  have p: "(\<exists>more es'. data = concat pre @ c @ c' @ more \<and>
                        es = map Recv pre @ Recv c # Recv c' # es') \<and>
           length (concat pre @ c) < length data"
    if r: "recv_loop (map Chunk pre @ Chunk c # Chunk c' # rest) [] = (Returns data, es)" for data es
  proof -
    obtain r3 es3 where r3: "recv_loop rest (concat pre @ c @ c') = (r3, es3)"
      by (cases "recv_loop rest (concat pre @ c @ c')")
    have "recv_loop (Chunk c # Chunk c' # rest) (concat pre) = (r3, Recv c # Recv c' # es3)"
      using assms(4,7) r3 by (simp add: seq_def emit_def)
    with r recv_loop_prefix [OF assms(2), of "Chunk c # Chunk c' # rest" "[]"]
    have e: "r3 = Returns data" "es = map Recv pre @ Recv c # Recv c' # es3"
      by (simp_all del: recv_loop.simps)
    from recv_loop_extends [OF r3 [unfolded e(1)]] obtain more where
      "data = (concat pre @ c @ c') @ more" ..
    with e(2) assms(7) show ?thesis by auto
  qed
  have b: "recv_loop (map Chunk pre @ [Chunk c]) [] =
           (Returns (concat pre @ c), map Recv pre @ [Recv c, Recv []])"
    using recv_loop_prefix [OF assms(2), of "[Chunk c]" "[]"] assms(4)
    by (simp add: seq_def emit_def)
  have b0: "bridge_text dec [Chunk c] = (Returns t, [Recv c, Recv []])"
    using assms(4,5) by (simp add: bridge_text_def decode_text_def seq_def emit_def raise_or_def)
  have a: "recv_loop (map Chunk cs) [] = (Returns (concat cs), map Recv cs @ [Recv []])"
    if "[] \<notin> set cs" for cs
    using recv_loop_chunks [OF that, of "[]"] by simp
  from d [of "Chunk c' # rest"] d [of "[]"] d0 p b b0 a show ?thesis by blast
qed

theorem framing_variants_witness:
  \<open>diag_text ascii_decode
     [Chunk (bytes_of ''ab''), Chunk (bytes_of ''c\<newline>d''), Chunk (bytes_of ''e'')] =
     (Returns ''abc\<newline>d'', [Recv (bytes_of ''ab''), Recv (bytes_of ''c\<newline>d'')]) \<and>
   bridge_text ascii_decode
     [Chunk (bytes_of ''ab''), Chunk (bytes_of ''c\<newline>d''), Chunk (bytes_of ''e'')] =
     (Returns ''abc\<newline>de'',
      [Recv (bytes_of ''ab''), Recv (bytes_of ''c\<newline>d''), Recv (bytes_of ''e''), Recv []])\<close>
proof -
  have h1: "map ascii_decode [bytes_of ''ab''] = map Some [''ab'']" by code_simp
  have h2: "list_all (\<lambda>b. b \<noteq> []) [bytes_of ''ab'']" by (simp add: bytes_of_def)
  have h3: "list_all (\<lambda>t. t \<noteq> [] \<and> CHR 0x0A \<notin> set t) [''ab'']" by simp
  have h4: "bytes_of ''c\<newline>d'' \<noteq> []" by (simp add: bytes_of_def)
  have h5: "ascii_decode (bytes_of ''c\<newline>d'') = Some ''c\<newline>d''" by code_simp
  have h6: "CHR 0x0A \<in> set ''c\<newline>d''" by simp
  have h7: "bytes_of ''e'' \<noteq> []" by (simp add: bytes_of_def)
  have s: "py_strip (concat [''ab''] @ ''c\<newline>d'') = ''abc\<newline>d''" by code_simp
  have b: "bridge_text ascii_decode
     [Chunk (bytes_of ''ab''), Chunk (bytes_of ''c\<newline>d''), Chunk (bytes_of ''e'')] =
     (Returns ''abc\<newline>de'',
      [Recv (bytes_of ''ab''), Recv (bytes_of ''c\<newline>d''), Recv (bytes_of ''e''), Recv []])"
    by code_simp
  from framing_variants [where dec = ascii_decode and pre = "[bytes_of ''ab'']"
         and ts = "[''ab'']" and c = "bytes_of ''c\<newline>d''" and t = "''c\<newline>d''"
         and c' = "bytes_of ''e''" and rest = "[]", OF h1 h2 h3 h4 h5 h6 h7]
  have "diag_text ascii_decode
     (map Chunk [bytes_of ''ab''] @ [Chunk (bytes_of ''c\<newline>d''), Chunk (bytes_of ''e'')]) =
     (Returns (py_strip (concat [''ab''] @ ''c\<newline>d'')),
      map Recv [bytes_of ''ab''] @ [Recv (bytes_of ''c\<newline>d'')])"
    by blast
  with s b show ?thesis by simp
qed

end
